theory Spec2Isabelle
  imports Main "HOL-Library.Word"
begin

unbundle bit_operations_syntax

section \<open>The host: file system, clock formatting and keyboard\<close>

text \<open>
  \<^verbatim>\<open>main.cpp\<close> talks to the operating system through \<^verbatim>\<open>opendir\<close>/\<^verbatim>\<open>readdir\<close>,
  \<^verbatim>\<open>stat\<close>, \<^verbatim>\<open>strftime\<close>, \<^verbatim>\<open>std::ifstream\<close> and the curses call \<^verbatim>\<open>getch\<close>. None of
  these is code of the program, so every function below takes the host as a value: what
  each call answers for each path. The Unix branch of the source (\<^verbatim>\<open>#else\<close>) is the one
  embedded.
\<close>

record file_stat =
  st_mode :: "32 word"
  st_size :: int
  st_mtime :: int

record host =
  opendir :: "string \<Rightarrow> string list option"
    \<comment> \<open>the names \<^verbatim>\<open>readdir\<close> yields, in order; \<open>None\<close> when \<^verbatim>\<open>opendir\<close> returns NULL\<close>
  stat :: "string \<Rightarrow> file_stat option"
    \<comment> \<open>\<open>None\<close> when \<^verbatim>\<open>stat\<close> does not return 0\<close>
  strftime :: "int \<Rightarrow> string"
    \<comment> \<open>\<^verbatim>\<open>strftime("%b %d %H:%M", localtime(mtime))\<close>\<close>
  ifstream_good :: "string \<Rightarrow> bool"
    \<comment> \<open>\<^verbatim>\<open>std::ifstream(path).good()\<close>, as \<^verbatim>\<open>isReadable\<close> asks it\<close>
  getlines :: "string \<Rightarrow> string list option"
    \<comment> \<open>the lines \<^verbatim>\<open>std::getline\<close> reads; \<open>None\<close> when the stream cannot be opened\<close>

text \<open>
  The key events \<^verbatim>\<open>getch\<close> can report, as the two \<^verbatim>\<open>switch\<close> statements tell them apart:
  the four arrow keys, 10 (Enter), 27 (Escape), and every other code.
\<close>

datatype key = Up | Down | Left | Right | Enter | Escape | Other

text \<open>
  What can end a call other than a normal return: indexing \<^verbatim>\<open>contents[choice]\<close> outside
  the vector (undefined behaviour in C++), and a \<^verbatim>\<open>getch\<close> that blocks because the keys
  given so far are used up.
\<close>

datatype fault = IndexOutOfRange | AwaitingKey

section \<open>Strings\<close>

text \<open>
  \<^verbatim>\<open>std::string::find_last_of\<close> with a single character: the index of its last
  occurrence, \<open>None\<close> standing for \<^verbatim>\<open>npos\<close>.
\<close>

fun find_last_of :: "string \<Rightarrow> char \<Rightarrow> nat option" where
  "find_last_of [] c = None"
| "find_last_of (x # xs) c =
     (case find_last_of xs c of
        Some i \<Rightarrow> Some (Suc i)
      | None \<Rightarrow> (if x = c then Some 0 else None))"

text \<open>
  \<^verbatim>\<open>s.find_last_of(" ") + 1\<close> in \<^verbatim>\<open>size_t\<close> arithmetic: \<^verbatim>\<open>npos\<close> is the largest
  \<^verbatim>\<open>size_t\<close>, so \<^verbatim>\<open>npos + 1\<close> wraps to 0.
\<close>

definition after_last_of :: "string \<Rightarrow> char \<Rightarrow> nat" where
  "after_last_of s c = (case find_last_of s c of None \<Rightarrow> 0 | Some i \<Rightarrow> i + 1)"

text \<open>
  \<^verbatim>\<open>s.substr(pos)\<close> and \<^verbatim>\<open>s.substr(0, n)\<close>. The first throws when \<open>pos\<close> exceeds the
  size; the program only calls it with \<open>after_last_of s c\<close>, which never does
  (lemma \<open>after_last_of_le\<close>).
\<close>

definition substr_from :: "string \<Rightarrow> nat \<Rightarrow> string" where
  "substr_from s pos = drop pos s"

definition substr_to :: "string \<Rightarrow> nat \<Rightarrow> string" where
  "substr_to s n = take n s"

text \<open>Decimal output of \<^verbatim>\<open>operator<<\<close> for the signed \<^verbatim>\<open>st_size\<close>.\<close>

definition digit :: "nat \<Rightarrow> char" where
  "digit d = ''0123456789'' ! d"

fun dec_digits :: "nat \<Rightarrow> string" where
  "dec_digits n =
     (if n < 10 then [digit n]
      else dec_digits (n div 10) @ [digit (n mod 10)])"

declare dec_digits.simps [simp del]

definition show_int :: "int \<Rightarrow> string" where
  "show_int i = (if i < 0 then CHR ''-'' # dec_digits (nat (- i)) else dec_digits (nat i))"

section \<open>Directory listing\<close>

text \<open>The mode bits of \<^verbatim>\<open><sys/stat.h>\<close>, with their values on Linux.\<close>

definition S_IFMT :: "32 word" where "S_IFMT = 61440"
definition S_IFDIR :: "32 word" where "S_IFDIR = 16384"
definition S_IFREG :: "32 word" where "S_IFREG = 32768"
definition S_IRUSR :: "32 word" where "S_IRUSR = 256"
definition S_IWUSR :: "32 word" where "S_IWUSR = 128"
definition S_IXUSR :: "32 word" where "S_IXUSR = 64"
definition S_IRGRP :: "32 word" where "S_IRGRP = 32"
definition S_IWGRP :: "32 word" where "S_IWGRP = 16"
definition S_IXGRP :: "32 word" where "S_IXGRP = 8"
definition S_IROTH :: "32 word" where "S_IROTH = 4"
definition S_IWOTH :: "32 word" where "S_IWOTH = 2"
definition S_IXOTH :: "32 word" where "S_IXOTH = 1"

definition S_ISDIR :: "32 word \<Rightarrow> bool" where
  "S_ISDIR m = (m AND S_IFMT = S_IFDIR)"

definition S_ISREG :: "32 word \<Rightarrow> bool" where
  "S_ISREG m = (m AND S_IFMT = S_IFREG)"

definition perm_flag :: "32 word \<Rightarrow> 32 word \<Rightarrow> string \<Rightarrow> string" where
  "perm_flag m b yes = (if m AND b \<noteq> 0 then yes else ''-'')"

definition formatPermissions :: "32 word \<Rightarrow> string" where
  "formatPermissions m =
     (if S_ISDIR m then ''d'' else ''-'')
     @ perm_flag m S_IRUSR ''r'' @ perm_flag m S_IWUSR ''w'' @ perm_flag m S_IXUSR ''x''
     @ perm_flag m S_IRGRP ''r'' @ perm_flag m S_IWGRP ''w'' @ perm_flag m S_IXGRP ''x''
     @ perm_flag m S_IROTH ''r'' @ perm_flag m S_IWOTH ''w'' @ perm_flag m S_IXOTH ''x''"

text \<open>
  The row built for one name in \<^verbatim>\<open>getDirectoryContents\<close>: permissions, size, time and
  the name, each followed by one space except the name.
\<close>

definition entry_row :: "host \<Rightarrow> file_stat \<Rightarrow> string \<Rightarrow> string" where
  "entry_row h fileStat fileName =
     formatPermissions (st_mode fileStat) @ '' '' @ show_int (st_size fileStat) @ '' ''
     @ strftime h (st_mtime fileStat) @ '' '' @ fileName"

text \<open>
  The \<^verbatim>\<open>while ((ent = readdir(dir)) != NULL)\<close> loop: a name whose \<^verbatim>\<open>stat\<close> fails is
  skipped, every other one appends its row.
\<close>

fun readdir_loop :: "host \<Rightarrow> string \<Rightarrow> string list \<Rightarrow> string list" where
  "readdir_loop h dirPath [] = []"
| "readdir_loop h dirPath (fileName # ents) =
     (case stat h (dirPath @ ''/'' @ fileName) of
        Some fileStat \<Rightarrow> entry_row h fileStat fileName # readdir_loop h dirPath ents
      | None \<Rightarrow> readdir_loop h dirPath ents)"

definition getDirectoryContents :: "host \<Rightarrow> string \<Rightarrow> string list" where
  "getDirectoryContents h dirPath =
     (case opendir h dirPath of
        Some ents \<Rightarrow> readdir_loop h dirPath ents
      | None \<Rightarrow> [])"

section \<open>The file pager\<close>

text \<open>
  The two scroll variables of \<^verbatim>\<open>displayFileContent\<close>. The \<^verbatim>\<open>int\<close>s of the program are
  integers here: each is a count of lines or rows, or an index at most one away from
  such a count, so nothing wraps for a file or listing whose size fits an \<^verbatim>\<open>int\<close>. Drawing
  the screen changes no variable and is left out.
\<close>

record pager =
  topLine :: int
  currentLine :: int

text \<open>
  The \<^verbatim>\<open>switch (ch)\<close> of \<^verbatim>\<open>displayFileContent\<close> for one key; \<^verbatim>\<open>case 27\<close> sets \<^verbatim>\<open>quit\<close>
  and changes neither variable.
\<close>

definition pager_switch :: "int \<Rightarrow> int \<Rightarrow> pager \<Rightarrow> key \<Rightarrow> pager" where
  "pager_switch totalLines visibleRows p ch =
     (case ch of
        Up \<Rightarrow>
          (let cl = (if currentLine p > 0 then currentLine p - 1 else currentLine p);
               tl = (if cl < topLine p then topLine p - 1 else topLine p)
           in \<lparr>topLine = tl, currentLine = cl\<rparr>)
      | Down \<Rightarrow>
          (let cl = (if currentLine p < totalLines - 1 then currentLine p + 1 else currentLine p);
               tl = (if cl \<ge> topLine p + visibleRows then topLine p + 1 else topLine p)
           in \<lparr>topLine = tl, currentLine = cl\<rparr>)
      | _ \<Rightarrow> p)"

text \<open>
  The \<^verbatim>\<open>while (!quit)\<close> loop over the keys still to come: it returns the pager and the
  keys left once Escape is read, and \<open>None\<close> when the keys run out first (the loop is
  then blocked in \<^verbatim>\<open>getch\<close>).
\<close>

fun pager_loop :: "int \<Rightarrow> int \<Rightarrow> pager \<Rightarrow> key list \<Rightarrow> (pager \<times> key list) option" where
  "pager_loop totalLines visibleRows p [] = None"
| "pager_loop totalLines visibleRows p (ch # keys) =
     (if ch = Escape then Some (p, keys)
      else pager_loop totalLines visibleRows (pager_switch totalLines visibleRows p ch) keys)"

definition isReadable :: "host \<Rightarrow> string \<Rightarrow> bool" where
  "isReadable h filePath = ifstream_good h filePath"

text \<open>
  \<^verbatim>\<open>displayFileContent\<close>: \<open>LINES\<close> is the curses global holding the number of screen
  rows. The result is the keys left for the caller. An unreadable file is handed to the
  default application and the function returns at once; so it does when the second
  open fails. Otherwise the loop runs until Escape, and one more \<^verbatim>\<open>getch\<close> follows.
\<close>

definition displayFileContent :: "host \<Rightarrow> int \<Rightarrow> string \<Rightarrow> key list \<Rightarrow> fault + key list" where
  "displayFileContent h LINES filePath keys =
     (if \<not> isReadable h filePath then Inr keys
      else case getlines h filePath of
        None \<Rightarrow> Inr keys
      | Some lines \<Rightarrow>
          (case pager_loop (int (length lines)) (LINES - 2) \<lparr>topLine = 0, currentLine = 0\<rparr> keys of
             None \<Rightarrow> Inl AwaitingKey
           | Some (p, rest) \<Rightarrow>
               (case rest of
                  [] \<Rightarrow> Inl AwaitingKey
                | ch # rest' \<Rightarrow> Inr rest')))"

section \<open>The browsing loop\<close>

text \<open>
  The variables of \<^verbatim>\<open>main\<close>. The two \<^verbatim>\<open>std::stack\<close>s are lists with the top at the
  head.
\<close>

record nav =
  currentDir :: string
  contents :: "string list"
  choice :: int
  backStack :: "string list"
  forwardStack :: "string list"

definition main_KEY_UP :: "nav \<Rightarrow> nav" where
  "main_KEY_UP s = s\<lparr>choice := max 0 (choice s - 1)\<rparr>"

definition main_KEY_DOWN :: "nav \<Rightarrow> nav" where
  "main_KEY_DOWN s = s\<lparr>choice := min (int (length (contents s)) - 1) (choice s + 1)\<rparr>"

text \<open>The name \<^verbatim>\<open>case 10\<close> reads back from a row: what follows its last space.\<close>

definition selected_of :: "string \<Rightarrow> string" where
  "selected_of row = substr_from row (after_last_of row CHR '' '')"

text \<open>The branch for a directory other than \<^verbatim>\<open>".."\<close>, and the one for \<^verbatim>\<open>".."\<close>.\<close>

definition descend :: "nav \<Rightarrow> string \<Rightarrow> nav" where
  "descend s selectedPath =
     s\<lparr>forwardStack := [], backStack := currentDir s # backStack s, currentDir := selectedPath\<rparr>"

definition ascend :: "nav \<Rightarrow> nav" where
  "ascend s =
     (case find_last_of (currentDir s) CHR ''/'' of
        Some lastSlash \<Rightarrow>
          s\<lparr>forwardStack := [], backStack := currentDir s # backStack s,
            currentDir := substr_to (currentDir s) lastSlash\<rparr>
      | None \<Rightarrow> s)"

definition reload :: "host \<Rightarrow> nav \<Rightarrow> nav" where
  "reload h s = s\<lparr>contents := getDirectoryContents h (currentDir s), choice := 0\<rparr>"

text \<open>
  \<^verbatim>\<open>case 10\<close>: the keys are those after Enter; the result pairs the new variables with
  the keys left (the pager reads some of them).
\<close>

definition main_ENTER :: "host \<Rightarrow> int \<Rightarrow> nav \<Rightarrow> key list \<Rightarrow> fault + (nav \<times> key list)" where
  "main_ENTER h LINES s keys =
     (if choice s < 0 \<or> int (length (contents s)) \<le> choice s then Inl IndexOutOfRange
      else
        let selected = selected_of (contents s ! nat (choice s));
            selectedPath = currentDir s @ ''/'' @ selected
        in case stat h selectedPath of
             None \<Rightarrow> Inr (s, keys)
           | Some fileStat \<Rightarrow>
               if S_ISDIR (st_mode fileStat) then
                 Inr (reload h (if selected = ''..'' then ascend s else descend s selectedPath), keys)
               else if S_ISREG (st_mode fileStat) then
                 (case displayFileContent h LINES selectedPath keys of
                    Inl f \<Rightarrow> Inl f
                  | Inr rest \<Rightarrow> Inr (s, rest))
               else Inr (s, keys))"

definition main_KEY_LEFT :: "host \<Rightarrow> nav \<Rightarrow> nav" where
  "main_KEY_LEFT h s =
     (case backStack s of
        [] \<Rightarrow> s
      | dir # below \<Rightarrow>
          reload h (s\<lparr>forwardStack := currentDir s # forwardStack s, currentDir := dir,
                      backStack := below\<rparr>))"

definition main_KEY_RIGHT :: "host \<Rightarrow> nav \<Rightarrow> nav" where
  "main_KEY_RIGHT h s =
     (case forwardStack s of
        [] \<Rightarrow> s
      | dir # below \<Rightarrow>
          reload h (s\<lparr>backStack := currentDir s # backStack s, currentDir := dir,
                      forwardStack := below\<rparr>))"

text \<open>
  One turn of \<^verbatim>\<open>while (true)\<close>: the key read and the keys after it. \<open>None\<close> in the
  result is \<^verbatim>\<open>goto exit\<close>.
\<close>

definition main_switch :: "host \<Rightarrow> int \<Rightarrow> nav \<Rightarrow> key \<Rightarrow> key list \<Rightarrow> fault + (nav \<times> key list) option" where
  "main_switch h LINES s ch keys =
     (case ch of
        Up \<Rightarrow> Inr (Some (main_KEY_UP s, keys))
      | Down \<Rightarrow> Inr (Some (main_KEY_DOWN s, keys))
      | Enter \<Rightarrow>
          (case main_ENTER h LINES s keys of
             Inl f \<Rightarrow> Inl f
           | Inr r \<Rightarrow> Inr (Some r))
      | Left \<Rightarrow> Inr (Some (main_KEY_LEFT h s, keys))
      | Right \<Rightarrow> Inr (Some (main_KEY_RIGHT h s, keys))
      | Escape \<Rightarrow> Inr None
      | Other \<Rightarrow> Inr (Some (s, keys)))"

subsection \<open>The loop itself\<close>

text \<open>
  \<^verbatim>\<open>main\<close> from the first \<^verbatim>\<open>getch\<close> on, run on the keys pressed so far: \<open>Exited\<close> after
  Escape; \<open>Waiting\<close> with the variables of \<^verbatim>\<open>main\<close> when the loop is back at \<^verbatim>\<open>getch\<close>
  and no key is left; \<open>Faulted\<close> when a turn did not come back to the loop (the pager is
  still waiting for a key, or \<^verbatim>\<open>contents\<close> was indexed outside its range). Every call
  that reads keys hands back fewer keys than it was given or the same; the loop
  terminates on that ground.
\<close>

datatype outcome = Exited nav | Waiting nav | Faulted fault

function main_loop :: "host \<Rightarrow> int \<Rightarrow> nav \<Rightarrow> key list \<Rightarrow> outcome" where
  "main_loop h LINES s [] = Waiting s"
| "main_loop h LINES s (ch # keys) =
     (case main_switch h LINES s ch keys of
        Inl f \<Rightarrow> Faulted f
      | Inr None \<Rightarrow> Exited s
      | Inr (Some (s', rest)) \<Rightarrow> main_loop h LINES s' rest)"
  by pat_completeness auto
termination
proof -
  have pager: "pager_loop t v p ks = Some (q, rest) \<Longrightarrow> length rest < length ks"
    for t v p ks q rest
    by (induction ks arbitrary: p) (fastforce split: if_splits)+
  have display: "displayFileContent h L f ks = Inr rest \<Longrightarrow> length rest \<le> length ks"
    for h L f ks rest
    by (auto simp: displayFileContent_def split: if_splits option.splits list.splits
        dest!: pager)
  have enter: "main_ENTER h L s ks = Inr (s', rest) \<Longrightarrow> length rest \<le> length ks"
    for h L s ks s' rest
    by (auto simp: main_ENTER_def Let_def split: if_splits option.splits sum.splits
        dest: display)
  have switch: "main_switch h L s ch ks = Inr (Some (s', rest)) \<Longrightarrow> length rest \<le> length ks"
    for h L s ch ks s' rest
    by (cases ch) (auto simp: main_switch_def split: sum.splits dest: enter)
  show ?thesis
    by (relation "measure (\<lambda>(h, L, s, keys). length keys)") (auto dest: switch)
qed

text \<open>
  \<^verbatim>\<open>getcwd(cwd, sizeof(cwd))\<close> on the buffer \<^verbatim>\<open>char cwd[256]\<close>, for a process whose working
  directory is \<open>wd\<close>: the path is copied when it fits with its terminating zero, and the
  call fails otherwise. \<^verbatim>\<open>main\<close> does not test the result, and after a failure the buffer
  holds no defined string.
\<close>

definition getcwd :: "string \<Rightarrow> nat \<Rightarrow> string option" where
  "getcwd wd n = (if length wd + 1 \<le> n then Some wd else None)"

text \<open>
  The variables of \<^verbatim>\<open>main\<close> when the loop is first entered, for the string \<open>cwd\<close> that
  \<^verbatim>\<open>getcwd\<close> left in the buffer; and the same from the working directory of the process,
  \<open>None\<close> when \<^verbatim>\<open>getcwd\<close> failed and the program reads an undefined buffer.
\<close>

definition start_nav :: "host \<Rightarrow> string \<Rightarrow> nav" where
  "start_nav h cwd =
     \<lparr>currentDir = cwd, contents = getDirectoryContents h cwd, choice = 0,
      backStack = [], forwardStack = []\<rparr>"

definition main_start :: "host \<Rightarrow> string \<Rightarrow> nav option" where
  "main_start h wd =
     (case getcwd wd 256 of
        Some cwd \<Rightarrow> Some (start_nav h cwd)
      | None \<Rightarrow> None)"

section \<open>Two small hosts\<close>

text \<open>
  A directory \<^verbatim>\<open>/a\<close> holding a subdirectory \<^verbatim>\<open>b\<close>, a text file \<^verbatim>\<open>f.txt\<close> of three
  lines and an empty file whose name has a space; \<^verbatim>\<open>opendir("")\<close> fails, as POSIX
  has it. Modes are \<^verbatim>\<open>040755\<close> and \<^verbatim>\<open>0100644\<close>.
\<close>

definition dir_stat :: file_stat where
  "dir_stat = \<lparr>st_mode = 16877, st_size = 4096, st_mtime = 0\<rparr>"

definition reg_stat :: file_stat where
  "reg_stat = \<lparr>st_mode = 33188, st_size = 12, st_mtime = 0\<rparr>"

definition demo_host :: host where
  "demo_host =
     \<lparr>opendir = map_of
        [(''/a'', [''.'', ''..'', ''b'', ''f.txt'', ''my file'']),
         (''/a/b'', [''.'', ''..''])],
      stat = map_of
        [(''/a/.'', dir_stat), (''/a/..'', dir_stat), (''/a/b'', dir_stat),
         (''/a/f.txt'', reg_stat), (''/a/my file'', reg_stat),
         (''/a/b/.'', dir_stat), (''/a/b/..'', dir_stat)],
      strftime = (\<lambda>t. ''Jan 01 00:00''),
      ifstream_good = (\<lambda>p. p = ''/a/f.txt'' \<or> p = ''/a/my file''),
      getlines = map_of [(''/a/f.txt'', [''one'', ''two'', ''three'']), (''/a/my file'', [])]\<rparr>"

text \<open>
  A host whose working directory is named without any \<^verbatim>\<open>/\<close> (as the drive-letter
  paths of the \<^verbatim>\<open>_WIN32\<close> build are), holding only \<^verbatim>\<open>.\<close> and \<^verbatim>\<open>..\<close>.
\<close>

definition flat_host :: host where
  "flat_host =
     \<lparr>opendir = map_of [(''work'', [''.'', ''..''])],
      stat = map_of [(''work/.'', dir_stat), (''work/..'', dir_stat)],
      strftime = (\<lambda>t. ''Jan 01 00:00''),
      ifstream_good = (\<lambda>p. False),
      getlines = (\<lambda>p. None)\<rparr>"

section \<open>Facts about the string functions\<close>

lemma find_last_of_None: "find_last_of s c = None \<longleftrightarrow> c \<notin> set s"
  by (induction s) (auto split: option.splits)

lemma find_last_of_append:
  "c \<notin> set n \<Longrightarrow> find_last_of (p @ c # n) c = Some (length p)"
  by (induction p) (auto simp: find_last_of_None split: option.splits)

lemma find_last_of_less: "find_last_of s c = Some i \<Longrightarrow> i < length s"
  by (induction s arbitrary: i) (auto split: option.splits if_splits)

lemma find_last_of_Some:
  "find_last_of s c = Some i \<Longrightarrow> s ! i = c \<and> c \<notin> set (drop (Suc i) s)"
  by (induction s arbitrary: i) (auto simp: find_last_of_None split: option.splits if_splits)

lemma after_last_of_le: "after_last_of s c \<le> length s"
  by (auto simp: after_last_of_def split: option.splits dest: find_last_of_less)

lemma selected_of_append:
  "CHR '' '' \<notin> set n \<Longrightarrow> selected_of (p @ '' '' @ n) = n"
  by (simp add: selected_of_def substr_from_def after_last_of_def find_last_of_append)

lemma selected_of_no_space: "CHR '' '' \<notin> set (selected_of row)"
  by (auto simp: selected_of_def substr_from_def after_last_of_def find_last_of_None
      split: option.splits dest: find_last_of_Some)

lemma selected_of_entry_row:
  "CHR '' '' \<notin> set fileName \<Longrightarrow> selected_of (entry_row h fileStat fileName) = fileName"
proof -
  assume a: "CHR '' '' \<notin> set fileName"
  have "entry_row h fileStat fileName =
      (formatPermissions (st_mode fileStat) @ '' '' @ show_int (st_size fileStat) @ '' ''
        @ strftime h (st_mtime fileStat)) @ '' '' @ fileName"
    by (simp add: entry_row_def)
  then show ?thesis
    using a selected_of_append by metis
qed

lemma entry_row_ends_with_name:
  "\<exists>meta. entry_row h fileStat fileName = meta @ '' '' @ fileName"
  unfolding entry_row_def by (metis append.assoc)

lemma readdir_loop_rows:
  "row \<in> set (readdir_loop h dirPath ents) \<Longrightarrow>
   \<exists>fileName fileStat. fileName \<in> set ents \<and> stat h (dirPath @ ''/'' @ fileName) = Some fileStat
      \<and> row = entry_row h fileStat fileName"
  by (induction ents) (auto split: option.splits)

lemma getDirectoryContents_rows:
  "row \<in> set (getDirectoryContents h dirPath) \<Longrightarrow>
   \<exists>ents fileName fileStat. opendir h dirPath = Some ents \<and> fileName \<in> set ents
      \<and> stat h (dirPath @ ''/'' @ fileName) = Some fileStat
      \<and> row = entry_row h fileStat fileName"
proof -
  assume a: "row \<in> set (getDirectoryContents h dirPath)"
  then obtain ents where e: "opendir h dirPath = Some ents"
    by (cases "opendir h dirPath") (auto simp: getDirectoryContents_def)
  with a have "row \<in> set (readdir_loop h dirPath ents)"
    by (simp add: getDirectoryContents_def)
  from readdir_loop_rows [OF this] e show ?thesis
    by blast
qed

text \<open>
  So the name is read back from a row of the listing exactly when it has no space; with
  a space in it, \<^verbatim>\<open>case 10\<close> gets only what follows the name's last space.
\<close>

lemma selected_of_entry_row_iff:
  "selected_of (entry_row h fileStat fileName) = fileName \<longleftrightarrow> CHR '' '' \<notin> set fileName"
  using selected_of_entry_row selected_of_no_space by metis

section \<open>Evaluating the two hosts\<close>

lemmas mode_bits = S_ISDIR_def S_ISREG_def S_IFMT_def S_IFDIR_def S_IFREG_def S_IRUSR_def
  S_IWUSR_def S_IXUSR_def S_IRGRP_def S_IWGRP_def S_IXGRP_def S_IROTH_def S_IWOTH_def
  S_IXOTH_def

lemma dir_stat_row: "entry_row h dir_stat n = ''drwxr-xr-x 4096 '' @ strftime h 0 @ '' '' @ n"
  by (simp add: entry_row_def dir_stat_def formatPermissions_def perm_flag_def mode_bits
      show_int_def dec_digits.simps digit_def)

lemma reg_stat_row: "entry_row h reg_stat n = ''-rw-r--r-- 12 '' @ strftime h 0 @ '' '' @ n"
  by (simp add: entry_row_def reg_stat_def formatPermissions_def perm_flag_def mode_bits
      show_int_def dec_digits.simps digit_def)

lemma dir_stat_kind: "S_ISDIR (st_mode dir_stat)"
  by (simp add: dir_stat_def mode_bits)

lemma reg_stat_kind: "\<not> S_ISDIR (st_mode reg_stat)" "S_ISREG (st_mode reg_stat)"
  by (simp_all add: reg_stat_def mode_bits)

lemma demo_listing_a:
  "getDirectoryContents demo_host ''/a'' =
     [''drwxr-xr-x 4096 Jan 01 00:00 .'', ''drwxr-xr-x 4096 Jan 01 00:00 ..'',
      ''drwxr-xr-x 4096 Jan 01 00:00 b'', ''-rw-r--r-- 12 Jan 01 00:00 f.txt'',
      ''-rw-r--r-- 12 Jan 01 00:00 my file'']"
  by (simp add: getDirectoryContents_def demo_host_def dir_stat_row reg_stat_row)

lemma demo_listing_b:
  "getDirectoryContents demo_host ''/a/b'' =
     [''drwxr-xr-x 4096 Jan 01 00:00 .'', ''drwxr-xr-x 4096 Jan 01 00:00 ..'']"
  by (simp add: getDirectoryContents_def demo_host_def dir_stat_row)

lemma demo_listing_empty: "getDirectoryContents demo_host [] = []"
  by (simp add: getDirectoryContents_def demo_host_def)

lemma demo_stat:
  "stat demo_host ''/a/..'' = Some dir_stat"
  "stat demo_host ''/a/b'' = Some dir_stat"
  "stat demo_host ''/a/f.txt'' = Some reg_stat"
  "stat demo_host ''/a/file'' = None"
  by (simp_all add: demo_host_def)

lemma demo_files:
  "isReadable demo_host ''/a/f.txt''"
  "getlines demo_host ''/a/f.txt'' = Some [''one'', ''two'', ''three'']"
  by (simp_all add: demo_host_def isReadable_def)

lemma demo_selected:
  "selected_of ''drwxr-xr-x 4096 Jan 01 00:00 ..'' = ''..''"
  "selected_of ''drwxr-xr-x 4096 Jan 01 00:00 b'' = ''b''"
  "selected_of ''-rw-r--r-- 12 Jan 01 00:00 f.txt'' = ''f.txt''"
  "selected_of ''-rw-r--r-- 12 Jan 01 00:00 my file'' = ''file''"
  by (simp_all add: selected_of_def after_last_of_def substr_from_def)

lemma flat_listing:
  "getDirectoryContents flat_host ''work'' =
     [''drwxr-xr-x 4096 Jan 01 00:00 .'', ''drwxr-xr-x 4096 Jan 01 00:00 ..'']"
  by (simp add: getDirectoryContents_def flat_host_def dir_stat_row)

lemma flat_stat: "stat flat_host ''work/..'' = Some dir_stat"
  by (simp add: flat_host_def)

text \<open>Both working directories fit the buffer of \<^verbatim>\<open>main\<close>, so the program starts there.\<close>

lemma demo_start:
  "main_start demo_host ''/a'' = Some (start_nav demo_host ''/a'')"
  "main_start flat_host ''work'' = Some (start_nav flat_host ''work'')"
  by (simp_all add: main_start_def getcwd_def)

lemma main_start_long: "256 \<le> length wd \<Longrightarrow> main_start h wd = None"
  by (simp add: main_start_def getcwd_def)

lemmas browse_defs = main_switch_def main_ENTER_def main_KEY_UP_def main_KEY_DOWN_def
  main_KEY_LEFT_def main_KEY_RIGHT_def reload_def ascend_def descend_def substr_to_def
  start_nav_def

lemmas demo_facts = demo_listing_a demo_listing_b demo_listing_empty demo_stat demo_files
  demo_selected dir_stat_kind reg_stat_kind

section \<open>What Enter does, by the kind of the selected entry\<close>

lemma S_ISREG_not_S_ISDIR: "S_ISREG m \<Longrightarrow> \<not> S_ISDIR m"
  by (simp add: S_ISREG_def S_ISDIR_def S_IFREG_def S_IFDIR_def)

lemma main_ENTER_directory:
  assumes "0 \<le> choice s" "choice s < int (length (contents s))"
    and "stat h (currentDir s @ ''/'' @ selected_of (contents s ! nat (choice s))) = Some fileStat"
    and "S_ISDIR (st_mode fileStat)"
  shows "main_ENTER h LINES s keys =
     Inr (reload h (if selected_of (contents s ! nat (choice s)) = ''..'' then ascend s
            else descend s (currentDir s @ ''/'' @ selected_of (contents s ! nat (choice s)))),
          keys)"
  using assms by (simp add: main_ENTER_def Let_def)

lemma main_ENTER_regular:
  assumes "0 \<le> choice s" "choice s < int (length (contents s))"
    and "stat h (currentDir s @ ''/'' @ selected_of (contents s ! nat (choice s))) = Some fileStat"
    and "S_ISREG (st_mode fileStat)"
  shows "main_ENTER h LINES s keys =
     (case displayFileContent h LINES
             (currentDir s @ ''/'' @ selected_of (contents s ! nat (choice s))) keys of
        Inl f \<Rightarrow> Inl f
      | Inr rest \<Rightarrow> Inr (s, rest))"
  using assms S_ISREG_not_S_ISDIR [OF assms(4)] by (simp add: main_ENTER_def Let_def)

lemma ascend_slash:
  assumes "currentDir s = parent @ ''/'' @ tail" "CHR ''/'' \<notin> set tail"
  shows "ascend s = s\<lparr>forwardStack := [], backStack := currentDir s # backStack s,
            currentDir := parent\<rparr>"
proof -
  have "find_last_of (currentDir s) CHR ''/'' = Some (length parent)"
    using assms find_last_of_append [of "CHR ''/''" tail parent] by simp
  then show ?thesis
    using assms by (simp add: ascend_def substr_to_def)
qed

lemma ascend_no_slash: "CHR ''/'' \<notin> set (currentDir s) \<Longrightarrow> ascend s = s"
  by (simp add: ascend_def find_last_of_None [THEN iffD2])

lemma split_at_last:
  assumes "c \<in> set s"
  shows "\<exists>p n. s = p @ c # n \<and> c \<notin> set n"
  using assms split_list_last by fastforce

section \<open>Moving the selection (claim C1)\<close>

text \<open>
  On a listing that is not empty, with the selection inside it, Up and Down set
  \<open>choice\<close> to \<open>choice \<plusminus> 1\<close> clamped to the rows of the listing, so it stays inside.
\<close>

lemma selection_clamped:
  assumes "0 \<le> choice s" "choice s < int (length (contents s))"
  shows "choice (main_KEY_UP s) = max 0 (min (int (length (contents s)) - 1) (choice s - 1))"
    and "choice (main_KEY_DOWN s) = max 0 (min (int (length (contents s)) - 1) (choice s + 1))"
  using assms by (auto simp: main_KEY_UP_def main_KEY_DOWN_def)

lemma selection_stays_inside:
  assumes "0 \<le> choice s" "choice s < int (length (contents s))" "ch = Up \<or> ch = Down"
  shows "main_switch h LINES s ch keys =
           Inr (Some (s\<lparr>choice := choice (if ch = Up then main_KEY_UP s else main_KEY_DOWN s)\<rparr>, keys))"
    and "0 \<le> choice (if ch = Up then main_KEY_UP s else main_KEY_DOWN s)"
    and "choice (if ch = Up then main_KEY_UP s else main_KEY_DOWN s) < int (length (contents s))"
  using assms by (auto simp: main_switch_def main_KEY_UP_def main_KEY_DOWN_def)

text \<open>So it does along any run of Up and Down keys, which changes nothing else.\<close>

lemma selection_stays_inside_run:
  assumes "set ks \<subseteq> {Up, Down}" "0 \<le> choice s" "choice s < int (length (contents s))"
  shows "\<exists>c. main_loop h LINES s ks = Waiting (s\<lparr>choice := c\<rparr>)
           \<and> 0 \<le> c \<and> c < int (length (contents s))"
  using assms
proof (induction ks arbitrary: s)
  case Nil
  then show ?case
    by (auto intro: exI [of _ "choice s"])
next
  case (Cons ch ks)
  then have k: "ch = Up \<or> ch = Down"
    by auto
  define s1 where "s1 = s\<lparr>choice := choice (if ch = Up then main_KEY_UP s else main_KEY_DOWN s)\<rparr>"
  have st: "main_switch h LINES s ch ks = Inr (Some (s1, ks))"
    and lo: "0 \<le> choice s1" and hi: "choice s1 < int (length (contents s1))"
    using selection_stays_inside(1) [OF Cons.prems(2,3) k, of h LINES ks]
      selection_stays_inside(2,3) [OF Cons.prems(2,3) k]
    by (simp_all add: s1_def)
  from Cons.prems(1) have "set ks \<subseteq> {Up, Down}"
    by simp
  from Cons.IH [OF this lo hi] obtain c where
    "main_loop h LINES s1 ks = Waiting (s1\<lparr>choice := c\<rparr>)" "0 \<le> c"
    "c < int (length (contents s1))"
    by blast
  then show ?case
    using st by (auto simp: s1_def)
qed

lemma up_on_empty_listing: "contents s = [] \<Longrightarrow> choice s = 0 \<Longrightarrow> main_KEY_UP s = s"
  by (simp add: main_KEY_UP_def)

text \<open>
  Claim C1 says that Up and Down keep \<open>choice\<close> inside the listing and leave it at 0 on
  an empty listing. The second half fails for Down: \<^verbatim>\<open>std::min((int)contents.size() - 1,
  choice + 1)\<close> is \<open>- 1\<close> when the listing is empty. Such a listing is reached from \<^verbatim>\<open>/a\<close>
  by Enter on \<^verbatim>\<open>..\<close> (the path becomes empty and \<^verbatim>\<open>opendir\<close> fails); Down then makes
  \<open>choice\<close> negative, and the next Enter indexes the empty vector at \<open>- 1\<close>.
\<close>

theorem down_on_empty_listing:
  "choice (main_KEY_DOWN (s\<lparr>contents := [], choice := 0\<rparr>)) = - 1
   \<and> main_loop demo_host 24 (start_nav demo_host ''/a'') [Down, Enter]
       = Waiting \<lparr>currentDir = [], contents = [], choice = 0, backStack = [''/a''],
           forwardStack = []\<rparr>
   \<and> main_loop demo_host 24 (start_nav demo_host ''/a'') [Down, Enter, Down]
       = Waiting \<lparr>currentDir = [], contents = [], choice = - 1, backStack = [''/a''],
           forwardStack = []\<rparr>
   \<and> main_loop demo_host 24 (start_nav demo_host ''/a'') [Down, Enter, Down, Enter]
       = Faulted IndexOutOfRange"
proof -
  have "choice (main_KEY_DOWN (s\<lparr>contents := [], choice := 0\<rparr>)) = - 1"
    by (simp add: main_KEY_DOWN_def)
  moreover have "main_loop demo_host 24 (start_nav demo_host ''/a'') [Down, Enter]
       = Waiting \<lparr>currentDir = [], contents = [], choice = 0, backStack = [''/a''],
           forwardStack = []\<rparr>"
    by (simp add: browse_defs demo_facts)
  moreover have "main_loop demo_host 24 (start_nav demo_host ''/a'') [Down, Enter, Down]
       = Waiting \<lparr>currentDir = [], contents = [], choice = - 1, backStack = [''/a''],
           forwardStack = []\<rparr>"
    by (simp add: browse_defs demo_facts)
  moreover have "main_loop demo_host 24 (start_nav demo_host ''/a'') [Down, Enter, Down, Enter]
       = Faulted IndexOutOfRange"
    by (simp add: browse_defs demo_facts)
  ultimately show ?thesis by blast
qed

section \<open>The forward stack (claim C2)\<close>

text \<open>
  Claim C2 says the forward stack is empty after Enter on a directory and also after
  Left. After Left it is not: Left pushes the directory it leaves. Entered \<^verbatim>\<open>/a/b\<close> from
  \<^verbatim>\<open>/a\<close> and gone back, the forward stack holds \<^verbatim>\<open>/a/b\<close>.
\<close>

theorem left_pushes_forward_counterexample:
  "forwardStack (main_KEY_LEFT demo_host
      \<lparr>currentDir = ''/a/b'', contents = getDirectoryContents demo_host ''/a/b'', choice = 0,
       backStack = [''/a''], forwardStack = []\<rparr>) = [''/a/b'']
   \<and> forwardStack (main_KEY_LEFT demo_host
      \<lparr>currentDir = ''/a/b'', contents = getDirectoryContents demo_host ''/a/b'', choice = 0,
       backStack = [''/a''], forwardStack = []\<rparr>) \<noteq> []"
  by (simp add: browse_defs)

text \<open>
  Claim C2 as amended: Enter on a directory entry empties the forward stack (and pushes
  the directory left onto the back stack) when the entry is not \<^verbatim>\<open>..\<close>, or is \<^verbatim>\<open>..\<close> and
  the current path has a \<^verbatim>\<open>/\<close>; Left, when the back stack is not empty, pushes the
  directory it leaves onto the forward stack and removes nothing from it.
\<close>

theorem enter_clears_forward_left_pushes:
  "(0 \<le> choice s \<and> choice s < int (length (contents s))
      \<and> stat h (currentDir s @ ''/'' @ selected_of (contents s ! nat (choice s))) = Some fileStat
      \<and> S_ISDIR (st_mode fileStat)
      \<and> (selected_of (contents s ! nat (choice s)) \<noteq> ''..'' \<or> CHR ''/'' \<in> set (currentDir s))
    \<longrightarrow> (\<exists>s'. main_ENTER h LINES s keys = Inr (s', keys) \<and> forwardStack s' = []
           \<and> backStack s' = currentDir s # backStack s))
   \<and> (backStack s \<noteq> []
    \<longrightarrow> forwardStack (main_KEY_LEFT h' s) = currentDir s # forwardStack s)"
proof (intro conjI impI)
  assume a: "0 \<le> choice s \<and> choice s < int (length (contents s))
      \<and> stat h (currentDir s @ ''/'' @ selected_of (contents s ! nat (choice s))) = Some fileStat
      \<and> S_ISDIR (st_mode fileStat)
      \<and> (selected_of (contents s ! nat (choice s)) \<noteq> ''..'' \<or> CHR ''/'' \<in> set (currentDir s))"
  then have e: "main_ENTER h LINES s keys =
     Inr (reload h (if selected_of (contents s ! nat (choice s)) = ''..'' then ascend s
            else descend s (currentDir s @ ''/'' @ selected_of (contents s ! nat (choice s)))),
          keys)"
    using main_ENTER_directory by blast
  show "\<exists>s'. main_ENTER h LINES s keys = Inr (s', keys) \<and> forwardStack s' = []
           \<and> backStack s' = currentDir s # backStack s"
  proof (cases "selected_of (contents s ! nat (choice s)) = ''..''")
    case True
    with a have "CHR ''/'' \<in> set (currentDir s)" by simp
    then obtain p n where "currentDir s = p @ ''/'' @ n" "CHR ''/'' \<notin> set n"
      using split_at_last by fastforce
    from ascend_slash [OF this] e True show ?thesis
      by (simp add: reload_def)
  next
    case False
    with e show ?thesis
      by (simp add: reload_def descend_def)
  qed
next
  assume "backStack s \<noteq> []"
  then show "forwardStack (main_KEY_LEFT h' s) = currentDir s # forwardStack s"
    by (cases "backStack s") (simp_all add: main_KEY_LEFT_def reload_def)
qed

theorem enter_clears_forward_left_pushes_witness:
  "(0::int) \<le> 2 \<and> (2::int) < int (length (getDirectoryContents demo_host ''/a''))
   \<and> stat demo_host (''/a'' @ ''/'' @ selected_of (getDirectoryContents demo_host ''/a'' ! nat 2))
       = Some dir_stat
   \<and> S_ISDIR (st_mode dir_stat)
   \<and> selected_of (getDirectoryContents demo_host ''/a'' ! nat 2) \<noteq> ''..''
   \<and> [''/''] \<noteq> ([] :: string list)
   \<and> (\<exists>s'. main_ENTER demo_host 24
          \<lparr>currentDir = ''/a'', contents = getDirectoryContents demo_host ''/a'', choice = 2,
           backStack = [''/''], forwardStack = [''/a/b'']\<rparr> [] = Inr (s', [])
        \<and> forwardStack s' = [] \<and> backStack s' = [''/a'', ''/''])
   \<and> forwardStack (main_KEY_LEFT demo_host
          \<lparr>currentDir = ''/a'', contents = getDirectoryContents demo_host ''/a'', choice = 2,
           backStack = [''/''], forwardStack = [''/a/b'']\<rparr>) = [''/a'', ''/a/b'']"
  using enter_clears_forward_left_pushes
    [of "\<lparr>currentDir = ''/a'', contents = getDirectoryContents demo_host ''/a'', choice = 2,
           backStack = [''/''], forwardStack = [''/a/b'']\<rparr>" demo_host dir_stat 24 "[]" demo_host]
  by (simp add: demo_facts)

section \<open>Reading the name back from a row (claim C3)\<close>

text \<open>
  Every row of a listing ends with the name it was built for, and \<^verbatim>\<open>case 10\<close> reads
  the name back exactly when the name has no space.
\<close>

lemma listing_rows_end_with_name:
  assumes "row \<in> set (getDirectoryContents h dirPath)"
  shows "\<exists>ents fileName meta. opendir h dirPath = Some ents \<and> fileName \<in> set ents
           \<and> row = meta @ '' '' @ fileName
           \<and> (selected_of row = fileName \<longleftrightarrow> CHR '' '' \<notin> set fileName)"
proof -
  from getDirectoryContents_rows [OF assms] obtain ents fileName fileStat where
    r: "opendir h dirPath = Some ents" "fileName \<in> set ents"
       "row = entry_row h fileStat fileName"
    by blast
  from entry_row_ends_with_name obtain meta where
    "entry_row h fileStat fileName = meta @ '' '' @ fileName"
    by blast
  with r selected_of_entry_row_iff [of h fileStat fileName] show ?thesis
    by blast
qed

text \<open>
  Claim C3 says the name is read back for every file name, names with spaces included.
  For the file \<^verbatim>\<open>my file\<close> of \<^verbatim>\<open>/a\<close> the row ends with the name, but \<^verbatim>\<open>case 10\<close> reads
  back \<^verbatim>\<open>file\<close>, asks \<^verbatim>\<open>stat\<close> about \<^verbatim>\<open>/a/file\<close>, which does not exist, and does nothing;
  the same Enter on \<^verbatim>\<open>f.txt\<close> opens the pager (which reads the two keys).
\<close>

theorem name_with_space_not_read_back:
  "getDirectoryContents demo_host ''/a'' ! 4 = ''-rw-r--r-- 12 Jan 01 00:00 my file''
   \<and> selected_of (getDirectoryContents demo_host ''/a'' ! 4) = ''file''
   \<and> selected_of (entry_row h fileStat ''my file'') = ''file''
   \<and> main_ENTER demo_host 24 ((start_nav demo_host ''/a'')\<lparr>choice := 4\<rparr>) [Escape, Other]
       = Inr ((start_nav demo_host ''/a'')\<lparr>choice := 4\<rparr>, [Escape, Other])
   \<and> main_ENTER demo_host 24 ((start_nav demo_host ''/a'')\<lparr>choice := 3\<rparr>) [Escape, Other]
       = Inr ((start_nav demo_host ''/a'')\<lparr>choice := 3\<rparr>, [])"
proof -
  obtain meta where "entry_row h fileStat ''my file'' = meta @ '' '' @ ''my file''"
    using entry_row_ends_with_name by blast
  then have "entry_row h fileStat ''my file'' = (meta @ '' my'') @ '' '' @ ''file''"
    by simp
  then have "selected_of (entry_row h fileStat ''my file'') = ''file''"
    using selected_of_append [of "''file''" "meta @ '' my''"] by simp
  moreover have "main_ENTER demo_host 24 ((start_nav demo_host ''/a'')\<lparr>choice := 3\<rparr>) [Escape, Other]
       = Inr ((start_nav demo_host ''/a'')\<lparr>choice := 3\<rparr>, [])"
    by (simp add: browse_defs demo_facts displayFileContent_def)
  moreover have "main_ENTER demo_host 24 ((start_nav demo_host ''/a'')\<lparr>choice := 4\<rparr>) [Escape, Other]
       = Inr ((start_nav demo_host ''/a'')\<lparr>choice := 4\<rparr>, [Escape, Other])"
    by (simp add: browse_defs demo_facts)
  ultimately show ?thesis
    by (simp add: demo_facts)
qed

section \<open>Back and forward (claim C4)\<close>

lemma left_then_right:
  assumes "backStack s = dir # below"
  shows "currentDir (main_KEY_LEFT h s) = dir"
    and "backStack (main_KEY_LEFT h s) = below"
    and "forwardStack (main_KEY_LEFT h s) = currentDir s # forwardStack s"
    and "currentDir (main_KEY_RIGHT h' (main_KEY_LEFT h s)) = currentDir s"
    and "backStack (main_KEY_RIGHT h' (main_KEY_LEFT h s)) = backStack s"
    and "forwardStack (main_KEY_RIGHT h' (main_KEY_LEFT h s)) = forwardStack s"
  using assms by (simp_all add: main_KEY_LEFT_def main_KEY_RIGHT_def reload_def)

lemma right_step:
  assumes "forwardStack s = dir # below"
  shows "main_KEY_RIGHT h s =
     \<lparr>currentDir = dir, contents = getDirectoryContents h dir, choice = 0,
      backStack = currentDir s # backStack s, forwardStack = below\<rparr>"
  using assms by (simp add: main_KEY_RIGHT_def reload_def)

lemma left_step:
  assumes "backStack s = dir # below"
  shows "main_KEY_LEFT h s =
     \<lparr>currentDir = dir, contents = getDirectoryContents h dir, choice = 0,
      backStack = below, forwardStack = currentDir s # forwardStack s\<rparr>"
  using assms by (simp add: main_KEY_LEFT_def reload_def)

text \<open>
  Claim C4, on the key events as the loop reads them. First part: with a directory
  entry \<open>B\<close> other than \<^verbatim>\<open>..\<close> selected in \<open>A\<close>, the key Enter moves to \<open>A/B\<close>; the key
  Left then shows \<open>A\<close> again with \<open>A/B\<close> on top of the forward stack; the key Right then
  shows \<open>A/B\<close> again. Second part: when two back moves are there to be made (the back
  stack holds two paths), the keys Left, Left, Right, Right restore the path, and both
  stacks with it. (With fewer paths on the back stack a Left is not a back move: it does
  nothing.) Turn by turn the host may answer differently at every key; the run of the
  whole loop is on one host.
\<close>

theorem history_symmetry:
  "(0 \<le> choice s \<and> choice s < int (length (contents s))
      \<and> B = selected_of (contents s ! nat (choice s)) \<and> B \<noteq> ''..''
      \<and> stat h (currentDir s @ ''/'' @ B) = Some fileStat \<and> S_ISDIR (st_mode fileStat)
    \<longrightarrow> main_switch h LINES s Enter keys =
          Inr (Some (\<lparr>currentDir = currentDir s @ ''/'' @ B,
                       contents = getDirectoryContents h (currentDir s @ ''/'' @ B), choice = 0,
                       backStack = currentDir s # backStack s, forwardStack = []\<rparr>, keys))
        \<and> main_switch h2 LINES
              \<lparr>currentDir = currentDir s @ ''/'' @ B,
               contents = getDirectoryContents h (currentDir s @ ''/'' @ B), choice = 0,
               backStack = currentDir s # backStack s, forwardStack = []\<rparr> Left keys =
          Inr (Some (\<lparr>currentDir = currentDir s,
                       contents = getDirectoryContents h2 (currentDir s), choice = 0,
                       backStack = backStack s,
                       forwardStack = [currentDir s @ ''/'' @ B]\<rparr>, keys))
        \<and> main_switch h3 LINES
              \<lparr>currentDir = currentDir s,
               contents = getDirectoryContents h2 (currentDir s), choice = 0,
               backStack = backStack s,
               forwardStack = [currentDir s @ ''/'' @ B]\<rparr> Right keys =
          Inr (Some (\<lparr>currentDir = currentDir s @ ''/'' @ B,
                       contents = getDirectoryContents h3 (currentDir s @ ''/'' @ B), choice = 0,
                       backStack = currentDir s # backStack s, forwardStack = []\<rparr>, keys))
        \<and> main_loop h LINES s [Enter, Left] =
          Waiting \<lparr>currentDir = currentDir s,
                    contents = getDirectoryContents h (currentDir s), choice = 0,
                    backStack = backStack s, forwardStack = [currentDir s @ ''/'' @ B]\<rparr>
        \<and> main_loop h LINES s [Enter, Left, Right] =
          Waiting \<lparr>currentDir = currentDir s @ ''/'' @ B,
                    contents = getDirectoryContents h (currentDir s @ ''/'' @ B), choice = 0,
                    backStack = currentDir s # backStack s, forwardStack = []\<rparr>)
   \<and> (2 \<le> length (backStack t)
    \<longrightarrow> main_switch h1 LINES t Left keys =
          Inr (Some (\<lparr>currentDir = backStack t ! 0,
                       contents = getDirectoryContents h1 (backStack t ! 0), choice = 0,
                       backStack = drop 1 (backStack t),
                       forwardStack = currentDir t # forwardStack t\<rparr>, keys))
        \<and> main_switch h2 LINES
              \<lparr>currentDir = backStack t ! 0,
               contents = getDirectoryContents h1 (backStack t ! 0), choice = 0,
               backStack = drop 1 (backStack t),
               forwardStack = currentDir t # forwardStack t\<rparr> Left keys =
          Inr (Some (\<lparr>currentDir = backStack t ! 1,
                       contents = getDirectoryContents h2 (backStack t ! 1), choice = 0,
                       backStack = drop 2 (backStack t),
                       forwardStack = backStack t ! 0 # currentDir t # forwardStack t\<rparr>, keys))
        \<and> main_switch h3 LINES
              \<lparr>currentDir = backStack t ! 1,
               contents = getDirectoryContents h2 (backStack t ! 1), choice = 0,
               backStack = drop 2 (backStack t),
               forwardStack = backStack t ! 0 # currentDir t # forwardStack t\<rparr> Right keys =
          Inr (Some (\<lparr>currentDir = backStack t ! 0,
                       contents = getDirectoryContents h3 (backStack t ! 0), choice = 0,
                       backStack = drop 1 (backStack t),
                       forwardStack = currentDir t # forwardStack t\<rparr>, keys))
        \<and> main_switch h4 LINES
              \<lparr>currentDir = backStack t ! 0,
               contents = getDirectoryContents h3 (backStack t ! 0), choice = 0,
               backStack = drop 1 (backStack t),
               forwardStack = currentDir t # forwardStack t\<rparr> Right keys =
          Inr (Some (\<lparr>currentDir = currentDir t,
                       contents = getDirectoryContents h4 (currentDir t), choice = 0,
                       backStack = backStack t, forwardStack = forwardStack t\<rparr>, keys))
        \<and> main_loop h LINES t [Left, Left] =
          Waiting \<lparr>currentDir = backStack t ! 1,
                    contents = getDirectoryContents h (backStack t ! 1), choice = 0,
                    backStack = drop 2 (backStack t),
                    forwardStack = backStack t ! 0 # currentDir t # forwardStack t\<rparr>
        \<and> main_loop h LINES t [Left, Left, Right, Right] =
          Waiting \<lparr>currentDir = currentDir t,
                    contents = getDirectoryContents h (currentDir t), choice = 0,
                    backStack = backStack t, forwardStack = forwardStack t\<rparr>)"
proof (intro conjI impI)
  assume a: "0 \<le> choice s \<and> choice s < int (length (contents s))
      \<and> B = selected_of (contents s ! nat (choice s)) \<and> B \<noteq> ''..''
      \<and> stat h (currentDir s @ ''/'' @ B) = Some fileStat \<and> S_ISDIR (st_mode fileStat)"
  have e: "main_ENTER h LINES s ks =
      Inr (\<lparr>currentDir = currentDir s @ ''/'' @ B,
            contents = getDirectoryContents h (currentDir s @ ''/'' @ B), choice = 0,
            backStack = currentDir s # backStack s, forwardStack = []\<rparr>, ks)" for ks
    using a main_ENTER_directory [of s h fileStat LINES ks]
    by (auto simp: reload_def descend_def)
  show "main_switch h LINES s Enter keys =
          Inr (Some (\<lparr>currentDir = currentDir s @ ''/'' @ B,
                       contents = getDirectoryContents h (currentDir s @ ''/'' @ B), choice = 0,
                       backStack = currentDir s # backStack s, forwardStack = []\<rparr>, keys))"
    by (simp add: main_switch_def e)
  show "main_switch h2 LINES
              \<lparr>currentDir = currentDir s @ ''/'' @ B,
               contents = getDirectoryContents h (currentDir s @ ''/'' @ B), choice = 0,
               backStack = currentDir s # backStack s, forwardStack = []\<rparr> Left keys =
          Inr (Some (\<lparr>currentDir = currentDir s,
                       contents = getDirectoryContents h2 (currentDir s), choice = 0,
                       backStack = backStack s,
                       forwardStack = [currentDir s @ ''/'' @ B]\<rparr>, keys))"
    by (simp add: main_switch_def left_step)
  show "main_switch h3 LINES
              \<lparr>currentDir = currentDir s,
               contents = getDirectoryContents h2 (currentDir s), choice = 0,
               backStack = backStack s,
               forwardStack = [currentDir s @ ''/'' @ B]\<rparr> Right keys =
          Inr (Some (\<lparr>currentDir = currentDir s @ ''/'' @ B,
                       contents = getDirectoryContents h3 (currentDir s @ ''/'' @ B), choice = 0,
                       backStack = currentDir s # backStack s, forwardStack = []\<rparr>, keys))"
    by (simp add: main_switch_def right_step)
  show "main_loop h LINES s [Enter, Left] =
          Waiting \<lparr>currentDir = currentDir s,
                    contents = getDirectoryContents h (currentDir s), choice = 0,
                    backStack = backStack s, forwardStack = [currentDir s @ ''/'' @ B]\<rparr>"
    by (simp add: main_switch_def e left_step)
  show "main_loop h LINES s [Enter, Left, Right] =
          Waiting \<lparr>currentDir = currentDir s @ ''/'' @ B,
                    contents = getDirectoryContents h (currentDir s @ ''/'' @ B), choice = 0,
                    backStack = currentDir s # backStack s, forwardStack = []\<rparr>"
    by (simp add: main_switch_def e left_step right_step)
next
  assume "2 \<le> length (backStack t)"
  then obtain d1 d2 below where bs: "backStack t = d1 # d2 # below"
    by (cases "backStack t"; cases "tl (backStack t)") auto
  show "main_switch h1 LINES t Left keys =
          Inr (Some (\<lparr>currentDir = backStack t ! 0,
                       contents = getDirectoryContents h1 (backStack t ! 0), choice = 0,
                       backStack = drop 1 (backStack t),
                       forwardStack = currentDir t # forwardStack t\<rparr>, keys))"
    by (simp add: main_switch_def bs left_step)
  show "main_switch h2 LINES
              \<lparr>currentDir = backStack t ! 0,
               contents = getDirectoryContents h1 (backStack t ! 0), choice = 0,
               backStack = drop 1 (backStack t),
               forwardStack = currentDir t # forwardStack t\<rparr> Left keys =
          Inr (Some (\<lparr>currentDir = backStack t ! 1,
                       contents = getDirectoryContents h2 (backStack t ! 1), choice = 0,
                       backStack = drop 2 (backStack t),
                       forwardStack = backStack t ! 0 # currentDir t # forwardStack t\<rparr>, keys))"
    by (simp add: main_switch_def bs left_step)
  show "main_switch h3 LINES
              \<lparr>currentDir = backStack t ! 1,
               contents = getDirectoryContents h2 (backStack t ! 1), choice = 0,
               backStack = drop 2 (backStack t),
               forwardStack = backStack t ! 0 # currentDir t # forwardStack t\<rparr> Right keys =
          Inr (Some (\<lparr>currentDir = backStack t ! 0,
                       contents = getDirectoryContents h3 (backStack t ! 0), choice = 0,
                       backStack = drop 1 (backStack t),
                       forwardStack = currentDir t # forwardStack t\<rparr>, keys))"
    by (simp add: main_switch_def bs right_step)
  show "main_switch h4 LINES
              \<lparr>currentDir = backStack t ! 0,
               contents = getDirectoryContents h3 (backStack t ! 0), choice = 0,
               backStack = drop 1 (backStack t),
               forwardStack = currentDir t # forwardStack t\<rparr> Right keys =
          Inr (Some (\<lparr>currentDir = currentDir t,
                       contents = getDirectoryContents h4 (currentDir t), choice = 0,
                       backStack = backStack t, forwardStack = forwardStack t\<rparr>, keys))"
    by (simp add: main_switch_def bs right_step)
  have l2: "main_loop h LINES t ([Left, Left] @ ks) =
      main_loop h LINES
        \<lparr>currentDir = d2, contents = getDirectoryContents h d2, choice = 0,
         backStack = below, forwardStack = d1 # currentDir t # forwardStack t\<rparr> ks" for ks
    by (simp add: main_switch_def bs left_step)
  show "main_loop h LINES t [Left, Left] =
          Waiting \<lparr>currentDir = backStack t ! 1,
                    contents = getDirectoryContents h (backStack t ! 1), choice = 0,
                    backStack = drop 2 (backStack t),
                    forwardStack = backStack t ! 0 # currentDir t # forwardStack t\<rparr>"
    using l2 [of "[]"] by (simp add: bs)
  show "main_loop h LINES t [Left, Left, Right, Right] =
          Waiting \<lparr>currentDir = currentDir t,
                    contents = getDirectoryContents h (currentDir t), choice = 0,
                    backStack = backStack t, forwardStack = forwardStack t\<rparr>"
    using l2 [of "[Right, Right]"] by (simp add: main_switch_def right_step bs)
qed

text \<open>
  The witness: \<open>B\<close> is \<^verbatim>\<open>b\<close> in \<^verbatim>\<open>/a\<close>; the two back moves start in \<^verbatim>\<open>/a/b\<close> with \<^verbatim>\<open>/a\<close> and
  \<^verbatim>\<open>/\<close> behind it.
\<close>

theorem history_symmetry_witness:
  "(0::int) \<le> 2 \<and> (2::int) < int (length (getDirectoryContents demo_host ''/a''))
   \<and> ''b'' = selected_of (getDirectoryContents demo_host ''/a'' ! nat 2) \<and> ''b'' \<noteq> ''..''
   \<and> stat demo_host (''/a'' @ ''/'' @ ''b'') = Some dir_stat \<and> S_ISDIR (st_mode dir_stat)
   \<and> (2::nat) \<le> length [''/a'', ''/'']
   \<and> main_loop demo_host 24 ((start_nav demo_host ''/a'')\<lparr>choice := 2\<rparr>) [Enter, Left] =
        Waiting \<lparr>currentDir = ''/a'', contents = getDirectoryContents demo_host ''/a'',
                  choice = 0, backStack = [], forwardStack = [''/a/b'']\<rparr>
   \<and> main_loop demo_host 24 ((start_nav demo_host ''/a'')\<lparr>choice := 2\<rparr>) [Enter, Left, Right] =
        Waiting \<lparr>currentDir = ''/a/b'', contents = getDirectoryContents demo_host ''/a/b'',
                  choice = 0, backStack = [''/a''], forwardStack = []\<rparr>
   \<and> main_loop demo_host 24
        \<lparr>currentDir = ''/a/b'', contents = [], choice = 0, backStack = [''/a'', ''/''],
         forwardStack = []\<rparr> [Left, Left] =
        Waiting \<lparr>currentDir = ''/'', contents = getDirectoryContents demo_host ''/'',
                  choice = 0, backStack = [], forwardStack = [''/a'', ''/a/b'']\<rparr>
   \<and> main_loop demo_host 24
        \<lparr>currentDir = ''/a/b'', contents = [], choice = 0, backStack = [''/a'', ''/''],
         forwardStack = []\<rparr> [Left, Left, Right, Right] =
        Waiting \<lparr>currentDir = ''/a/b'', contents = getDirectoryContents demo_host ''/a/b'',
                  choice = 0, backStack = [''/a'', ''/''], forwardStack = []\<rparr>"
  using history_symmetry
    [where s = "(start_nav demo_host ''/a'')\<lparr>choice := 2\<rparr>" and B = "''b''"
       and h = demo_host and fileStat = dir_stat and LINES = 24 and keys = "[]"
       and ?h1.0 = demo_host and ?h2.0 = demo_host and ?h3.0 = demo_host and ?h4.0 = demo_host
       and t = "\<lparr>currentDir = ''/a/b'', contents = [], choice = 0, backStack = [''/a'', ''/''],
           forwardStack = []\<rparr>"]
  by (simp add: demo_stat demo_selected demo_listing_a dir_stat_kind start_nav_def)

section \<open>Enter when \<^verbatim>\<open>stat\<close> fails (claim C6)\<close>

text \<open>
  Claim C6: with a row selected, when \<^verbatim>\<open>stat\<close> of the path built from it fails, Enter
  returns with every variable of \<^verbatim>\<open>main\<close> as it was, and no key read.
\<close>

theorem enter_stat_failure_changes_nothing:
  assumes "0 \<le> choice s" "choice s < int (length (contents s))"
    and "stat h (currentDir s @ ''/'' @ selected_of (contents s ! nat (choice s))) = None"
  shows "main_ENTER h LINES s keys = Inr (s, keys)
     \<and> main_switch h LINES s Enter keys = Inr (Some (s, keys))
     \<and> main_loop h LINES s (Enter # keys) = main_loop h LINES s keys"
  using assms by (simp add: main_switch_def main_ENTER_def Let_def)

theorem enter_stat_failure_changes_nothing_witness:
  "(0::int) \<le> 4 \<and> (4::int) < int (length (getDirectoryContents demo_host ''/a''))
   \<and> stat demo_host (''/a'' @ ''/'' @ selected_of (getDirectoryContents demo_host ''/a'' ! nat 4))
       = None
   \<and> main_ENTER demo_host 24
        \<lparr>currentDir = ''/a'', contents = getDirectoryContents demo_host ''/a'', choice = 4,
         backStack = [''/''], forwardStack = [''/a/b'']\<rparr> [Down]
      = Inr (\<lparr>currentDir = ''/a'', contents = getDirectoryContents demo_host ''/a'', choice = 4,
         backStack = [''/''], forwardStack = [''/a/b'']\<rparr>, [Down])"
  using enter_stat_failure_changes_nothing
    [of "\<lparr>currentDir = ''/a'', contents = getDirectoryContents demo_host ''/a'', choice = 4,
         backStack = [''/''], forwardStack = [''/a/b'']\<rparr>" demo_host 24 "[Down]"]
  by (simp add: demo_facts)

section \<open>Enter on \<^verbatim>\<open>..\<close> (claims C7 and C10)\<close>

text \<open>
  Claim C7 says that Enter on \<^verbatim>\<open>..\<close> changes nothing at all when the current path has no
  \<^verbatim>\<open>/\<close>. The path and the two stacks are indeed kept, but the two statements after the
  \<^verbatim>\<open>if\<close> still run: the listing is read again and \<open>choice\<close> becomes 0. In \<^verbatim>\<open>work\<close>, with
  \<^verbatim>\<open>..\<close> selected in row 1, Enter leaves the selection on row 0.
\<close>

theorem enter_dotdot_no_separator_counterexample:
  "find_last_of (currentDir ((start_nav flat_host ''work'')\<lparr>choice := 1\<rparr>)) CHR ''/'' = None
   \<and> selected_of (contents ((start_nav flat_host ''work'')\<lparr>choice := 1\<rparr>) ! 1) = ''..''
   \<and> main_ENTER flat_host 24 ((start_nav flat_host ''work'')\<lparr>choice := 1\<rparr>) []
        = Inr ((start_nav flat_host ''work'')\<lparr>choice := 0\<rparr>, [])
   \<and> main_ENTER flat_host 24 ((start_nav flat_host ''work'')\<lparr>choice := 1\<rparr>) []
        \<noteq> Inr ((start_nav flat_host ''work'')\<lparr>choice := 1\<rparr>, [])"
  by (simp add: browse_defs flat_listing flat_stat demo_selected dir_stat_kind)

text \<open>
  Claim C7 as amended: with \<^verbatim>\<open>..\<close> selected and a directory, Enter on a path
  \<open>parent/tail\<close> (\<open>tail\<close> without \<^verbatim>\<open>/\<close>) pushes the path onto the back stack, empties the
  forward stack, makes \<open>parent\<close> the current path, reads its listing and sets \<open>choice\<close>
  to 0; on a path without \<^verbatim>\<open>/\<close> it keeps the path and both stacks, and still reads the
  listing again and sets \<open>choice\<close> to 0.
\<close>

theorem enter_dotdot:
  assumes "0 \<le> choice s" "choice s < int (length (contents s))"
    and "selected_of (contents s ! nat (choice s)) = ''..''"
    and "stat h (currentDir s @ ''/'' @ ''..'') = Some fileStat"
    and "S_ISDIR (st_mode fileStat)"
  shows "(currentDir s = parent @ ''/'' @ tail \<and> CHR ''/'' \<notin> set tail
          \<longrightarrow> main_ENTER h LINES s keys =
                Inr (\<lparr>currentDir = parent, contents = getDirectoryContents h parent, choice = 0,
                      backStack = currentDir s # backStack s, forwardStack = []\<rparr>, keys))
       \<and> (CHR ''/'' \<notin> set (currentDir s)
          \<longrightarrow> main_ENTER h LINES s keys =
                Inr (\<lparr>currentDir = currentDir s,
                      contents = getDirectoryContents h (currentDir s), choice = 0,
                      backStack = backStack s, forwardStack = forwardStack s\<rparr>, keys))"
proof -
  have e: "main_ENTER h LINES s keys = Inr (reload h (ascend s), keys)"
    using main_ENTER_directory [of s h fileStat LINES keys] assms by simp
  show ?thesis
  proof (intro conjI impI)
    assume "currentDir s = parent @ ''/'' @ tail \<and> CHR ''/'' \<notin> set tail"
    then have "ascend s = s\<lparr>forwardStack := [], backStack := currentDir s # backStack s,
            currentDir := parent\<rparr>"
      using ascend_slash by blast
    then show "main_ENTER h LINES s keys =
                Inr (\<lparr>currentDir = parent, contents = getDirectoryContents h parent, choice = 0,
                      backStack = currentDir s # backStack s, forwardStack = []\<rparr>, keys)"
      by (simp add: e reload_def)
  next
    assume "CHR ''/'' \<notin> set (currentDir s)"
    then have "ascend s = s"
      by (rule ascend_no_slash)
    then show "main_ENTER h LINES s keys =
                Inr (\<lparr>currentDir = currentDir s,
                      contents = getDirectoryContents h (currentDir s), choice = 0,
                      backStack = backStack s, forwardStack = forwardStack s\<rparr>, keys)"
      by (simp add: e reload_def)
  qed
qed

lemma demo_more:
  "stat demo_host ''/a/b/..'' = Some dir_stat"
  "opendir demo_host [] = None"
  by (simp_all add: demo_host_def)

text \<open>The witness: \<^verbatim>\<open>..\<close> in \<^verbatim>\<open>/a/b\<close> leads to \<^verbatim>\<open>/a\<close>; \<^verbatim>\<open>..\<close> in \<^verbatim>\<open>work\<close> stays there.\<close>

theorem enter_dotdot_witness:
  "(0::int) \<le> 1 \<and> (1::int) < int (length (getDirectoryContents demo_host ''/a/b''))
   \<and> selected_of (getDirectoryContents demo_host ''/a/b'' ! nat 1) = ''..''
   \<and> stat demo_host (''/a/b'' @ ''/'' @ ''..'') = Some dir_stat
   \<and> S_ISDIR (st_mode dir_stat)
   \<and> ''/a/b'' = ''/a'' @ ''/'' @ ''b'' \<and> CHR ''/'' \<notin> set ''b''
   \<and> main_ENTER demo_host 24
        \<lparr>currentDir = ''/a/b'', contents = getDirectoryContents demo_host ''/a/b'', choice = 1,
         backStack = [''/a''], forwardStack = [''/x'']\<rparr> []
      = Inr (\<lparr>currentDir = ''/a'', contents = getDirectoryContents demo_host ''/a'', choice = 0,
              backStack = [''/a/b'', ''/a''], forwardStack = []\<rparr>, [])
   \<and> (1::int) < int (length (getDirectoryContents flat_host ''work''))
   \<and> selected_of (getDirectoryContents flat_host ''work'' ! nat 1) = ''..''
   \<and> stat flat_host (''work'' @ ''/'' @ ''..'') = Some dir_stat
   \<and> CHR ''/'' \<notin> set ''work''
   \<and> main_ENTER flat_host 24
        \<lparr>currentDir = ''work'', contents = getDirectoryContents flat_host ''work'', choice = 1,
         backStack = [''/a''], forwardStack = [''/x'']\<rparr> []
      = Inr (\<lparr>currentDir = ''work'', contents = getDirectoryContents flat_host ''work'',
              choice = 0, backStack = [''/a''], forwardStack = [''/x'']\<rparr>, [])"
proof -
  have d: "(0::int) \<le> 1" "(1::int) < int (length (getDirectoryContents demo_host ''/a/b''))"
    "selected_of (getDirectoryContents demo_host ''/a/b'' ! nat 1) = ''..''"
    "stat demo_host (''/a/b'' @ ''/'' @ ''..'') = Some dir_stat"
    by (simp_all add: demo_facts demo_more)
  have f: "(1::int) < int (length (getDirectoryContents flat_host ''work''))"
    "selected_of (getDirectoryContents flat_host ''work'' ! nat 1) = ''..''"
    "stat flat_host (''work'' @ ''/'' @ ''..'') = Some dir_stat"
    by (simp_all add: flat_listing flat_stat demo_selected)
  have "main_ENTER demo_host 24
        \<lparr>currentDir = ''/a/b'', contents = getDirectoryContents demo_host ''/a/b'', choice = 1,
         backStack = [''/a''], forwardStack = [''/x'']\<rparr> []
      = Inr (\<lparr>currentDir = ''/a'', contents = getDirectoryContents demo_host ''/a'', choice = 0,
              backStack = [''/a/b'', ''/a''], forwardStack = []\<rparr>, [])"
    using d dir_stat_kind
      enter_dotdot [where s = "\<lparr>currentDir = ''/a/b'',
          contents = getDirectoryContents demo_host ''/a/b'', choice = 1,
          backStack = [''/a''], forwardStack = [''/x'']\<rparr>" and h = demo_host
        and fileStat = dir_stat and parent = "''/a''" and tail = "''b''" and LINES = 24
        and keys = "[]"]
    by simp
  moreover have "main_ENTER flat_host 24
        \<lparr>currentDir = ''work'', contents = getDirectoryContents flat_host ''work'', choice = 1,
         backStack = [''/a''], forwardStack = [''/x'']\<rparr> []
      = Inr (\<lparr>currentDir = ''work'', contents = getDirectoryContents flat_host ''work'',
              choice = 0, backStack = [''/a''], forwardStack = [''/x'']\<rparr>, [])"
    using f dir_stat_kind
      enter_dotdot [where s = "\<lparr>currentDir = ''work'',
          contents = getDirectoryContents flat_host ''work'', choice = 1,
          backStack = [''/a''], forwardStack = [''/x'']\<rparr>" and h = flat_host
        and fileStat = dir_stat and LINES = 24 and keys = "[]"]
    by simp
  ultimately show ?thesis
    using d f dir_stat_kind by simp
qed

text \<open>
  Claim C10: on a path whose only \<^verbatim>\<open>/\<close> is the first character, the key Enter on \<^verbatim>\<open>..\<close>
  makes the current path the empty string (not \<^verbatim>\<open>/\<close>) and pushes the old path onto the
  back stack. \<^verbatim>\<open>opendir("")\<close> fails on a POSIX host, so the listing read for it is empty.
  The key Left then brings the old path back with its listing (whatever the host is by
  then); the back stack is as before that Enter. So does the loop run on Enter and Left.
\<close>

theorem enter_dotdot_below_root:
  assumes "currentDir s = ''/'' @ name" "CHR ''/'' \<notin> set name"
    and "0 \<le> choice s" "choice s < int (length (contents s))"
    and "selected_of (contents s ! nat (choice s)) = ''..''"
    and "stat h (currentDir s @ ''/'' @ ''..'') = Some fileStat"
    and "S_ISDIR (st_mode fileStat)"
    and "opendir h [] = None"
  shows "main_switch h LINES s Enter keys =
        Inr (Some (\<lparr>currentDir = [], contents = [], choice = 0,
                     backStack = currentDir s # backStack s, forwardStack = []\<rparr>, keys))
      \<and> main_loop h LINES s [Enter] =
        Waiting \<lparr>currentDir = [], contents = [], choice = 0,
                  backStack = currentDir s # backStack s, forwardStack = []\<rparr>
      \<and> main_switch h' LINES
            \<lparr>currentDir = [], contents = [], choice = 0,
             backStack = currentDir s # backStack s, forwardStack = []\<rparr> Left keys =
        Inr (Some (\<lparr>currentDir = currentDir s,
                     contents = getDirectoryContents h' (currentDir s), choice = 0,
                     backStack = backStack s, forwardStack = [[]]\<rparr>, keys))
      \<and> main_loop h LINES s [Enter, Left] =
        Waiting \<lparr>currentDir = currentDir s, contents = getDirectoryContents h (currentDir s),
                  choice = 0, backStack = backStack s, forwardStack = [[]]\<rparr>"
proof -
  have "currentDir s = [] @ ''/'' @ name \<and> CHR ''/'' \<notin> set name"
    using assms(1,2) by simp
  then have "main_ENTER h LINES s ks =
      Inr (\<lparr>currentDir = [], contents = getDirectoryContents h [], choice = 0,
            backStack = currentDir s # backStack s, forwardStack = []\<rparr>, ks)" for ks
    using main_ENTER_directory [of s h fileStat LINES ks] assms(3-7)
      ascend_slash [of s "[]" name]
    by (simp add: reload_def)
  moreover have "getDirectoryContents h [] = []"
    using assms(8) by (simp add: getDirectoryContents_def)
  ultimately have e: "main_ENTER h LINES s ks =
      Inr (\<lparr>currentDir = [], contents = [], choice = 0,
            backStack = currentDir s # backStack s, forwardStack = []\<rparr>, ks)" for ks
    by simp
  show ?thesis
    by (simp add: main_switch_def e left_step)
qed

theorem enter_dotdot_below_root_witness:
  "''/a'' = ''/'' @ ''a'' \<and> CHR ''/'' \<notin> set ''a''
   \<and> (0::int) \<le> 1 \<and> (1::int) < int (length (getDirectoryContents demo_host ''/a''))
   \<and> selected_of (getDirectoryContents demo_host ''/a'' ! nat 1) = ''..''
   \<and> stat demo_host (''/a'' @ ''/'' @ ''..'') = Some dir_stat
   \<and> S_ISDIR (st_mode dir_stat)
   \<and> opendir demo_host [] = None
   \<and> main_loop demo_host 24 ((start_nav demo_host ''/a'')\<lparr>choice := 1\<rparr>) [Enter] =
        Waiting \<lparr>currentDir = [], contents = [], choice = 0, backStack = [''/a''],
                  forwardStack = []\<rparr>
   \<and> main_loop demo_host 24 ((start_nav demo_host ''/a'')\<lparr>choice := 1\<rparr>) [Enter, Left] =
        Waiting \<lparr>currentDir = ''/a'', contents = getDirectoryContents demo_host ''/a'',
                  choice = 0, backStack = [], forwardStack = [[]]\<rparr>"
proof -
  have d: "(1::int) < int (length (getDirectoryContents demo_host ''/a''))"
    "selected_of (getDirectoryContents demo_host ''/a'' ! nat 1) = ''..''"
    "stat demo_host (''/a'' @ ''/'' @ ''..'') = Some dir_stat"
    "opendir demo_host [] = None"
    by (simp_all add: demo_facts demo_more)
  show ?thesis
    using d dir_stat_kind
      enter_dotdot_below_root [where s = "(start_nav demo_host ''/a'')\<lparr>choice := 1\<rparr>"
        and name = "''a''" and h = demo_host and fileStat = dir_stat and LINES = 24
        and keys = "[]" and h' = demo_host]
    by (simp add: start_nav_def)
qed

section \<open>Scrolling in the pager (claim C5)\<close>

text \<open>
  One key keeps the window around the cursor line, the cursor inside the file (at 0 for
  an empty file) and the window's top at or above it and not negative.
\<close>

lemma pager_switch_keeps_window:
  assumes "1 \<le> v" "0 \<le> n"
    and "0 \<le> topLine p" "topLine p \<le> currentLine p" "currentLine p < topLine p + v"
    and "currentLine p \<le> max 0 (n - 1)"
  shows "0 \<le> topLine (pager_switch n v p ch)"
    and "topLine (pager_switch n v p ch) \<le> currentLine (pager_switch n v p ch)"
    and "currentLine (pager_switch n v p ch) < topLine (pager_switch n v p ch) + v"
    and "currentLine (pager_switch n v p ch) \<le> max 0 (n - 1)"
  using assms by (cases ch; simp add: pager_switch_def Let_def; linarith)+

lemma pager_keys_keep_window:
  assumes "1 \<le> v" "0 \<le> n"
  shows "0 \<le> topLine (foldl (pager_switch n v) \<lparr>topLine = 0, currentLine = 0\<rparr> ks)
     \<and> topLine (foldl (pager_switch n v) \<lparr>topLine = 0, currentLine = 0\<rparr> ks)
         \<le> currentLine (foldl (pager_switch n v) \<lparr>topLine = 0, currentLine = 0\<rparr> ks)
     \<and> currentLine (foldl (pager_switch n v) \<lparr>topLine = 0, currentLine = 0\<rparr> ks)
         < topLine (foldl (pager_switch n v) \<lparr>topLine = 0, currentLine = 0\<rparr> ks) + v
     \<and> currentLine (foldl (pager_switch n v) \<lparr>topLine = 0, currentLine = 0\<rparr> ks)
         \<le> max 0 (n - 1)"
proof (induction ks rule: rev_induct)
  case Nil
  from assms show ?case by simp
next
  case (snoc ch ks)
  then show ?case
    using pager_switch_keeps_window [OF assms, of "foldl (pager_switch n v) \<lparr>topLine = 0, currentLine = 0\<rparr> ks" ch]
    by simp
qed

text \<open>The cursor moves to the neighbouring line, clamped to the file; the top by at most one.\<close>

lemma pager_switch_moves:
  assumes "0 \<le> currentLine p" "currentLine p \<le> max 0 (n - 1)"
  shows "currentLine (pager_switch n v p Up) = max 0 (min (n - 1) (currentLine p - 1))"
    and "currentLine (pager_switch n v p Down) = max 0 (min (n - 1) (currentLine p + 1))"
    and "\<bar>currentLine (pager_switch n v p ch) - currentLine p\<bar> \<le> 1"
    and "\<bar>topLine (pager_switch n v p ch) - topLine p\<bar> \<le> 1"
  using assms by (cases ch; simp add: pager_switch_def Let_def; linarith)+

text \<open>The loop of the pager reads keys up to the first Escape and applies them in order.\<close>

lemma pager_loop_run:
  "Escape \<notin> set ks \<Longrightarrow>
   pager_loop n v p (ks @ Escape # rest) = Some (foldl (pager_switch n v) p ks, rest)"
  by (induction ks arbitrary: p) auto

lemma pager_loop_starved: "Escape \<notin> set ks \<Longrightarrow> pager_loop n v p ks = None"
  by (induction ks arbitrary: p) auto

text \<open>
  Claim C5: in a pager opened on a file of lines \<open>lines\<close>, on a screen of \<open>LINES\<close> rows
  with at least one row for the text, after any Up and Down keys the cursor line is in
  the window \<open>topLine \<le> currentLine < topLine + visibleRows\<close>; the next Up or Down moves
  the cursor to \<open>currentLine \<plusminus> 1\<close> clamped to \<open>[0, len - 1]\<close> (so by at most one line) and
  the top by at most one line. The loop of \<^verbatim>\<open>displayFileContent\<close> is in that state when it
  reads Escape after those keys.
\<close>

theorem pager_scroll_invariant:
  assumes "1 \<le> LINES - 2" "set ks \<subseteq> {Up, Down}"
    and "n = int (length lines)" "v = LINES - 2"
    and "p = foldl (pager_switch n v) \<lparr>topLine = 0, currentLine = 0\<rparr> ks"
  shows "topLine p \<le> currentLine p \<and> currentLine p < topLine p + v
     \<and> 0 \<le> topLine p \<and> currentLine p \<le> max 0 (n - 1)
     \<and> currentLine (pager_switch n v p Up) = max 0 (min (n - 1) (currentLine p - 1))
     \<and> currentLine (pager_switch n v p Down) = max 0 (min (n - 1) (currentLine p + 1))
     \<and> \<bar>currentLine (pager_switch n v p Up) - currentLine p\<bar> \<le> 1
     \<and> \<bar>currentLine (pager_switch n v p Down) - currentLine p\<bar> \<le> 1
     \<and> \<bar>topLine (pager_switch n v p Up) - topLine p\<bar> \<le> 1
     \<and> \<bar>topLine (pager_switch n v p Down) - topLine p\<bar> \<le> 1
     \<and> pager_loop n v \<lparr>topLine = 0, currentLine = 0\<rparr> (ks @ Escape # rest) = Some (p, rest)"
proof -
  have v: "1 \<le> v" and n: "0 \<le> n"
    using assms by simp_all
  have w: "0 \<le> topLine p" "topLine p \<le> currentLine p" "currentLine p < topLine p + v"
    "currentLine p \<le> max 0 (n - 1)"
    using pager_keys_keep_window [OF v n, of ks] assms(5) by simp_all
  then have c: "0 \<le> currentLine p"
    by simp
  have "Escape \<notin> set ks"
    using assms(2) by auto
  then have l: "pager_loop n v \<lparr>topLine = 0, currentLine = 0\<rparr> (ks @ Escape # rest) = Some (p, rest)"
    using pager_loop_run assms(5) by simp
  note m = pager_switch_moves [OF c w(4)]
  show ?thesis
  proof (intro conjI)
    show "pager_loop n v \<lparr>topLine = 0, currentLine = 0\<rparr> (ks @ Escape # rest) = Some (p, rest)"
      by (rule l)
  qed (rule w m)+
qed

text \<open>
  The witness: the three lines of \<^verbatim>\<open>f.txt\<close> on a screen of 4 rows (two rows of text),
  after Down, Down, Down, Up: the cursor is on line 1 and the window starts there.
\<close>

theorem pager_scroll_invariant_witness:
  "(1::int) \<le> 4 - 2 \<and> set [Down, Down, Down, Up] \<subseteq> {Up, Down}
   \<and> foldl (pager_switch 3 2) \<lparr>topLine = 0, currentLine = 0\<rparr> [Down, Down, Down, Up]
        = \<lparr>topLine = 1, currentLine = 1\<rparr>
   \<and> (1::int) \<le> 1 \<and> (1::int) < 1 + 2
   \<and> currentLine (pager_switch 3 2 \<lparr>topLine = 1, currentLine = 1\<rparr> Up) = max 0 (min (3 - 1) (1 - 1))
   \<and> currentLine (pager_switch 3 2 \<lparr>topLine = 1, currentLine = 1\<rparr> Down) = max 0 (min (3 - 1) (1 + 1))
   \<and> pager_loop 3 2 \<lparr>topLine = 0, currentLine = 0\<rparr> ([Down, Down, Down, Up] @ Escape # [Other])
        = Some (\<lparr>topLine = 1, currentLine = 1\<rparr>, [Other])"
proof -
  have f: "foldl (pager_switch 3 2) \<lparr>topLine = 0, currentLine = 0\<rparr> [Down, Down, Down, Up]
        = \<lparr>topLine = 1, currentLine = 1\<rparr>"
    by (simp add: pager_switch_def)
  have h: "(1::int) \<le> 4 - 2" "set [Down, Down, Down, Up] \<subseteq> {Up, Down}"
    "(3::int) = int (length [''one'', ''two'', ''three''])" "(2::int) = 4 - 2"
    by simp_all
  note t = pager_scroll_invariant [OF h f [symmetric], of "[Other]"]
  from t f show ?thesis
    by simp
qed

section \<open>A paging session (claims C8 and C9)\<close>

text \<open>
  \<^verbatim>\<open>displayFileContent\<close> on a readable file: it needs Escape and one more key to return,
  and returns the keys after that one.
\<close>

lemma displayFileContent_session:
  assumes "isReadable h filePath" "getlines h filePath = Some lines" "Escape \<notin> set ks"
  shows "displayFileContent h LINES filePath ks = Inl AwaitingKey"
    and "displayFileContent h LINES filePath (ks @ [Escape]) = Inl AwaitingKey"
    and "displayFileContent h LINES filePath (ks @ Escape # k # rest) = Inr rest"
  using assms
  by (simp_all add: displayFileContent_def pager_loop_run pager_loop_starved)

lemma displayFileContent_unreadable:
  "\<not> isReadable h filePath \<Longrightarrow> displayFileContent h LINES filePath keys = Inr keys"
  by (simp add: displayFileContent_def)

text \<open>
  Claim C8: Enter on a regular file never returns with a variable of \<^verbatim>\<open>main\<close> changed;
  and when the file is readable, Enter, any keys without Escape, Escape and the one key
  read after it make a session that returns with the variables as they were, so the
  browsing loop goes on as if the session had not been.
\<close>

theorem paging_session_leaves_nav_unchanged:
  assumes "0 \<le> choice s" "choice s < int (length (contents s))"
    and "filePath = currentDir s @ ''/'' @ selected_of (contents s ! nat (choice s))"
    and "stat h filePath = Some fileStat" "S_ISREG (st_mode fileStat)"
  shows "(main_ENTER h LINES s keys = Inr (s', rest) \<longrightarrow> s' = s)
     \<and> (isReadable h filePath \<and> getlines h filePath = Some lines \<and> Escape \<notin> set ks
        \<longrightarrow> main_ENTER h LINES s (ks @ Escape # k # later) = Inr (s, later)
          \<and> main_loop h LINES s (Enter # ks @ Escape # k # later) = main_loop h LINES s later)"
proof -
  have e: "main_ENTER h LINES s keys' =
     (case displayFileContent h LINES filePath keys' of
        Inl f \<Rightarrow> Inl f
      | Inr rest \<Rightarrow> Inr (s, rest))" for keys'
    using main_ENTER_regular [of s h fileStat LINES keys'] assms by simp
  show ?thesis
  proof (intro conjI impI)
    assume "main_ENTER h LINES s keys = Inr (s', rest)"
    then show "s' = s"
      by (simp add: e split: sum.splits)
  next
    assume r: "isReadable h filePath \<and> getlines h filePath = Some lines \<and> Escape \<notin> set ks"
    then have "displayFileContent h LINES filePath (ks @ Escape # k # later) = Inr later"
      using displayFileContent_session(3) by blast
    then show m: "main_ENTER h LINES s (ks @ Escape # k # later) = Inr (s, later)"
      by (simp add: e)
    then show "main_loop h LINES s (Enter # ks @ Escape # k # later) = main_loop h LINES s later"
      by (simp add: main_switch_def)
  qed
qed

text \<open>
  The witness is the scenario of the specification: in \<^verbatim>\<open>/a\<close> with \<^verbatim>\<open>f.txt\<close> selected
  (row 3 here), Enter, Down, Escape and one more key.
\<close>

theorem paging_session_leaves_nav_unchanged_witness:
  "(0::int) \<le> 3 \<and> (3::int) < int (length (getDirectoryContents demo_host ''/a''))
   \<and> ''/a/f.txt'' = ''/a'' @ ''/'' @ selected_of (getDirectoryContents demo_host ''/a'' ! nat 3)
   \<and> stat demo_host ''/a/f.txt'' = Some reg_stat \<and> S_ISREG (st_mode reg_stat)
   \<and> isReadable demo_host ''/a/f.txt''
   \<and> getlines demo_host ''/a/f.txt'' = Some [''one'', ''two'', ''three'']
   \<and> Escape \<notin> set [Down]
   \<and> main_ENTER demo_host 24 ((start_nav demo_host ''/a'')\<lparr>choice := 3\<rparr>) [Down, Escape, Enter, Up]
        = Inr ((start_nav demo_host ''/a'')\<lparr>choice := 3\<rparr>, [Up])
   \<and> main_loop demo_host 24 ((start_nav demo_host ''/a'')\<lparr>choice := 3\<rparr>)
          [Enter, Down, Escape, Enter, Up]
        = Waiting ((start_nav demo_host ''/a'')\<lparr>choice := 2\<rparr>)"
proof -
  have p: "(0::int) \<le> 3" "(3::int) < int (length (getDirectoryContents demo_host ''/a''))"
    "''/a/f.txt'' = ''/a'' @ ''/'' @ selected_of (getDirectoryContents demo_host ''/a'' ! nat 3)"
    "stat demo_host ''/a/f.txt'' = Some reg_stat" "S_ISREG (st_mode reg_stat)"
    and q: "isReadable demo_host ''/a/f.txt''"
    "getlines demo_host ''/a/f.txt'' = Some [''one'', ''two'', ''three'']"
    "Escape \<notin> set [Down]"
    by (simp_all add: demo_facts)
  have u: "main_loop demo_host 24 ((start_nav demo_host ''/a'')\<lparr>choice := 3\<rparr>) [Up]
        = Waiting ((start_nav demo_host ''/a'')\<lparr>choice := 2\<rparr>)"
    by (simp add: main_switch_def main_KEY_UP_def start_nav_def)
  note t = paging_session_leaves_nav_unchanged
    [where s = "(start_nav demo_host ''/a'')\<lparr>choice := 3\<rparr>" and h = demo_host
      and filePath = "''/a/f.txt''" and fileStat = reg_stat and LINES = 24
      and lines = "[''one'', ''two'', ''three'']" and ks = "[Down]" and k = Enter
      and later = "[Up]", THEN conjunct2, rule_format]
  have "main_ENTER demo_host 24 ((start_nav demo_host ''/a'')\<lparr>choice := 3\<rparr>) [Down, Escape, Enter, Up]
        = Inr ((start_nav demo_host ''/a'')\<lparr>choice := 3\<rparr>, [Up])
   \<and> main_loop demo_host 24 ((start_nav demo_host ''/a'')\<lparr>choice := 3\<rparr>)
          [Enter, Down, Escape, Enter, Up]
        = Waiting ((start_nav demo_host ''/a'')\<lparr>choice := 2\<rparr>)"
    using t p q u by (simp add: start_nav_def)
  with p q show ?thesis
    by simp
qed

text \<open>
  Claim C9: once Escape has ended the loop of the pager, \<^verbatim>\<open>displayFileContent\<close> waits
  for one more key (with Escape as the last key so far it has not returned) and returns
  to the browsing loop after it, with all later keys unread. Whatever that key \<open>k\<close> is,
  the pager it ends and the variables of \<^verbatim>\<open>main\<close> are the same.
\<close>

theorem one_key_discarded_after_escape:
  assumes "isReadable h filePath" "getlines h filePath = Some lines" "Escape \<notin> set ks"
  shows "displayFileContent h LINES filePath (ks @ [Escape]) = Inl AwaitingKey
     \<and> displayFileContent h LINES filePath (ks @ Escape # k # rest) = Inr rest
     \<and> pager_loop (int (length lines)) (LINES - 2) \<lparr>topLine = 0, currentLine = 0\<rparr>
          (ks @ Escape # k # rest)
        = Some (foldl (pager_switch (int (length lines)) (LINES - 2))
                  \<lparr>topLine = 0, currentLine = 0\<rparr> ks, k # rest)
     \<and> (0 \<le> choice s \<and> choice s < int (length (contents s))
          \<and> filePath = currentDir s @ ''/'' @ selected_of (contents s ! nat (choice s))
          \<and> stat h filePath = Some fileStat \<and> S_ISREG (st_mode fileStat)
        \<longrightarrow> main_switch h LINES s Enter (ks @ [Escape]) = Inl AwaitingKey
          \<and> main_switch h LINES s Enter (ks @ Escape # k # rest) = Inr (Some (s, rest)))"
proof (intro conjI impI)
  show a: "displayFileContent h LINES filePath (ks @ [Escape]) = Inl AwaitingKey"
    using assms by (rule displayFileContent_session(2))
  show b: "displayFileContent h LINES filePath (ks @ Escape # k # rest) = Inr rest"
    using assms by (rule displayFileContent_session(3))
  show "pager_loop (int (length lines)) (LINES - 2) \<lparr>topLine = 0, currentLine = 0\<rparr>
          (ks @ Escape # k # rest)
        = Some (foldl (pager_switch (int (length lines)) (LINES - 2))
                  \<lparr>topLine = 0, currentLine = 0\<rparr> ks, k # rest)"
    using assms(3) by (rule pager_loop_run)
  assume n: "0 \<le> choice s \<and> choice s < int (length (contents s))
          \<and> filePath = currentDir s @ ''/'' @ selected_of (contents s ! nat (choice s))
          \<and> stat h filePath = Some fileStat \<and> S_ISREG (st_mode fileStat)"
  have e: "main_ENTER h LINES s keys' =
     (case displayFileContent h LINES filePath keys' of
        Inl f \<Rightarrow> Inl f
      | Inr rest \<Rightarrow> Inr (s, rest))" for keys'
    using main_ENTER_regular [of s h fileStat LINES keys'] n by auto
  show "main_switch h LINES s Enter (ks @ [Escape]) = Inl AwaitingKey"
    by (simp add: main_switch_def e a)
  show "main_switch h LINES s Enter (ks @ Escape # k # rest) = Inr (Some (s, rest))"
    by (simp add: main_switch_def e b)
qed

text \<open>
  The witness: in the pager on \<^verbatim>\<open>f.txt\<close>, after Down and Escape the key read and dropped
  is Escape again; it does not leave the program, and the Up after it moves the
  selection of the listing.
\<close>

theorem one_key_discarded_after_escape_witness:
  "isReadable demo_host ''/a/f.txt''
   \<and> getlines demo_host ''/a/f.txt'' = Some [''one'', ''two'', ''three'']
   \<and> Escape \<notin> set [Down]
   \<and> (0::int) \<le> 3 \<and> (3::int) < int (length (getDirectoryContents demo_host ''/a''))
   \<and> ''/a/f.txt'' = ''/a'' @ ''/'' @ selected_of (getDirectoryContents demo_host ''/a'' ! nat 3)
   \<and> stat demo_host ''/a/f.txt'' = Some reg_stat \<and> S_ISREG (st_mode reg_stat)
   \<and> displayFileContent demo_host 24 ''/a/f.txt'' [Down, Escape] = Inl AwaitingKey
   \<and> displayFileContent demo_host 24 ''/a/f.txt'' [Down, Escape, Escape, Up] = Inr [Up]
   \<and> main_switch demo_host 24 ((start_nav demo_host ''/a'')\<lparr>choice := 3\<rparr>) Enter
        [Down, Escape, Escape, Up]
        = Inr (Some ((start_nav demo_host ''/a'')\<lparr>choice := 3\<rparr>, [Up]))"
proof -
  have q: "isReadable demo_host ''/a/f.txt''"
    "getlines demo_host ''/a/f.txt'' = Some [''one'', ''two'', ''three'']"
    "Escape \<notin> set [Down]"
    and p: "(0::int) \<le> 3" "(3::int) < int (length (getDirectoryContents demo_host ''/a''))"
    "''/a/f.txt'' = ''/a'' @ ''/'' @ selected_of (getDirectoryContents demo_host ''/a'' ! nat 3)"
    "stat demo_host ''/a/f.txt'' = Some reg_stat" "S_ISREG (st_mode reg_stat)"
    by (simp_all add: demo_facts)
  note t = one_key_discarded_after_escape [OF q, where LINES = 24 and k = Escape
      and rest = "[Up]" and s = "(start_nav demo_host ''/a'')\<lparr>choice := 3\<rparr>"
      and fileStat = reg_stat]
  have "displayFileContent demo_host 24 ''/a/f.txt'' [Down, Escape] = Inl AwaitingKey
   \<and> displayFileContent demo_host 24 ''/a/f.txt'' [Down, Escape, Escape, Up] = Inr [Up]
   \<and> main_switch demo_host 24 ((start_nav demo_host ''/a'')\<lparr>choice := 3\<rparr>) Enter
        [Down, Escape, Escape, Up]
        = Inr (Some ((start_nav demo_host ''/a'')\<lparr>choice := 3\<rparr>, [Up]))"
    using t p by (simp add: start_nav_def)
  with p q show ?thesis
    by simp
qed

end
